theory Spec2Isabelle
  imports Complex_Main
begin

section \<open>causal\_utils.py: data model\<close>

text \<open>
  The module has two functions: \<open>random_data\<close>, which draws a synthetic observational
  data set with NumPy and SciPy, and \<open>is_match_parenthesis\<close>, a stack-based balance
  check over a list of strings.

  Conventions of the embedding.
  \<^item> A float64 array of one dimension is a \<open>real list\<close>; an array of two dimensions is a
    \<open>matrix\<close>, which keeps its column count beside its rows, because NumPy remembers the
    shape \<open>(0, K)\<close> of an array with no rows. Rounding, overflow, infinities and NaN are
    outside the model: every number is an exact real.
  \<^item> An integer array (the treatment vector) is an \<open>int list\<close>.
  \<^item> Every exception the source can raise is a value: a call returns \<open>error + 'a\<close>,
    with \<open>Inl\<close> for the exception.
  \<^item> NumPy's global random generator is explicit state: a call that draws takes the state
    of the generator and returns the state it leaves behind.
\<close>

datatype error =
    ValueError     \<comment> \<open>NumPy's exception for a shape or domain violation\<close>
  | IndexError     \<comment> \<open>a column index outside an array\<close>
  | OutsideModel   \<comment> \<open>an argument of a kind the embedding does not cover\<close>

record matrix =
  ncols :: nat
  rows :: "real list list"

text \<open>
  A keyword argument of \<open>random_data\<close> is a NumPy value of dimension zero, one or two;
  \<open>**kwargs\<close> is a dictionary from names to such values.
\<close>

datatype ndarray = Scalar real | Vector "real list" | Matrix matrix

type_synonym kwargs = "string \<rightharpoonup> ndarray"

text \<open>What \<open>random_data\<close> returns: the tuple of three or of six arrays.\<close>

datatype result_tuple =
    Tuple3 (out_Y: "real list") (out_T: "int list") (out_X: matrix)
  | Tuple6 (out_Y: "real list") (out_T: "int list") (out_X: matrix)
      (out_Y0: "real list") (out_Y1: "real list") (out_pscore: "real list")

text \<open>Sequencing of calls that may raise: the first exception ends the computation.\<close>

definition then_do :: "error + 'a \<Rightarrow> ('a \<Rightarrow> error + 'b) \<Rightarrow> error + 'b" where
  "then_do m f = (case m of Inl e \<Rightarrow> Inl e | Inr x \<Rightarrow> f x)"

section \<open>The NumPy and SciPy operations the source calls\<close>

text \<open>
  \<open>np.zeros(n)\<close>, \<open>np.ones(n)\<close> and \<open>np.identity(n)\<close> raise ValueError
  ("negative dimensions are not allowed") for a negative \<open>n\<close>.
\<close>

definition np_zeros :: "int \<Rightarrow> error + real list" where
  "np_zeros n = (if n < 0 then Inl ValueError else Inr (replicate (nat n) 0))"

definition np_ones :: "int \<Rightarrow> error + real list" where
  "np_ones n = (if n < 0 then Inl ValueError else Inr (replicate (nat n) 1))"

definition np_identity :: "int \<Rightarrow> error + matrix" where
  "np_identity n =
     (if n < 0 then Inl ValueError
      else Inr \<lparr>ncols = nat n,
                rows = map (\<lambda>i. map (\<lambda>j. if i = j then 1 else 0) [0..<nat n]) [0..<nat n]\<rparr>)"

text \<open>
  \<open>kwargs.get(name, default)\<close>. The source reads six names; the embedding covers a
  vector for \<open>mu\<close>, \<open>beta\<close> and \<open>theta\<close>, a scalar for \<open>delta\<close> and a matrix for
  \<open>Sigma\<close> and \<open>Gamma\<close>, as the docstring and the spec give them. A value of another
  dimension is \<open>OutsideModel\<close>.
\<close>

definition kwargs_get_vector :: "kwargs \<Rightarrow> string \<Rightarrow> real list \<Rightarrow> error + real list" where
  "kwargs_get_vector kwargs name dflt =
     (case kwargs name of
        None \<Rightarrow> Inr dflt
      | Some (Vector v) \<Rightarrow> Inr v
      | Some _ \<Rightarrow> Inl OutsideModel)"

definition kwargs_get_scalar :: "kwargs \<Rightarrow> string \<Rightarrow> real \<Rightarrow> error + real" where
  "kwargs_get_scalar kwargs name dflt =
     (case kwargs name of
        None \<Rightarrow> Inr dflt
      | Some (Scalar x) \<Rightarrow> Inr x
      | Some _ \<Rightarrow> Inl OutsideModel)"

definition kwargs_get_matrix :: "kwargs \<Rightarrow> string \<Rightarrow> matrix \<Rightarrow> error + matrix" where
  "kwargs_get_matrix kwargs name dflt =
     (case kwargs name of
        None \<Rightarrow> Inr dflt
      | Some (Matrix m) \<Rightarrow> Inr m
      | Some _ \<Rightarrow> Inl OutsideModel)"

text \<open>
  \<open>X.dot(v)\<close> for a two-dimensional \<open>X\<close> and a one-dimensional \<open>v\<close>: ValueError
  ("shapes not aligned") unless the column count of \<open>X\<close> is the length of \<open>v\<close>, also when
  \<open>X\<close> has no rows.
\<close>

definition np_dot :: "matrix \<Rightarrow> real list \<Rightarrow> error + real list" where
  "np_dot X v =
     (if ncols X \<noteq> length v then Inl ValueError
      else Inr (map (\<lambda>r. sum_list (map2 (*) r v)) (rows X)))"

text \<open>
  An elementwise binary operation on two one-dimensional arrays, with NumPy's
  broadcasting: equal lengths combine pointwise, an array of length one is stretched over
  the other, and any other pair of lengths raises ValueError.
\<close>

definition broadcast :: "('a \<Rightarrow> 'b \<Rightarrow> 'c) \<Rightarrow> 'a list \<Rightarrow> 'b list \<Rightarrow> error + 'c list" where
  "broadcast f xs ys =
     (if length xs = length ys then Inr (map2 f xs ys)
      else if length xs = 1 then Inr (map (f (hd xs)) ys)
      else if length ys = 1 then Inr (map (\<lambda>x. f x (hd ys)) xs)
      else Inl ValueError)"

text \<open>The column slice \<open>m[:, j]\<close>.\<close>

definition np_column :: "matrix \<Rightarrow> nat \<Rightarrow> error + real list" where
  "np_column m j =
     (if j < ncols m then Inr (map (\<lambda>r. r ! j) (rows m)) else Inl IndexError)"

text \<open>\<open>scipy.stats.logistic.cdf\<close>: the standard logistic function, over the reals.\<close>

definition logistic_cdf :: "real \<Rightarrow> real" where
  "logistic_cdf x = 1 / (1 + exp (- x))"

subsection \<open>The random generator\<close>

text \<open>
  The distribution of a draw is outside the model. What is modelled is what a draw is a
  function of (the state of the generator and the parameters of the distribution), that
  each draw moves the state on, and the shape of what comes back. \<open>'g\<close> is the state.
  \<^item> \<open>normal_component g mean cov j\<close> is component \<open>j\<close> of the vector that one draw from
    the multivariate normal distribution yields in state \<open>g\<close>;
  \<^item> \<open>bernoulli_trial g p\<close> is the outcome of one trial with success probability \<open>p\<close>;
  \<^item> \<open>advance g\<close> is the state after a draw;
  \<^item> \<open>cov_valid cov\<close> is the generator's test that a covariance matrix is symmetric
    positive semi-definite (a singular value decomposition compared within a tolerance).
\<close>

record 'g random_source =
  normal_component :: "'g \<Rightarrow> real list \<Rightarrow> matrix \<Rightarrow> nat \<Rightarrow> real"
  bernoulli_trial :: "'g \<Rightarrow> real \<Rightarrow> bool"
  advance :: "'g \<Rightarrow> 'g"
  cov_valid :: "matrix \<Rightarrow> bool"

text \<open>
  The \<open>check_valid\<close> argument of \<open>np.random.multivariate_normal\<close>. Its default is
  \<open>'warn'\<close>: a covariance that fails the validity test gives a RuntimeWarning and the
  draw goes on. Only \<open>'raise'\<close> turns the failed test into a ValueError.
\<close>

datatype check_valid = Warn | Raise | Ignore

fun mvn_rows :: "'g random_source \<Rightarrow> real list \<Rightarrow> matrix \<Rightarrow> nat \<Rightarrow> 'g \<Rightarrow> real list list \<times> 'g" where
  "mvn_rows S mean cov 0 g = ([], g)"
| "mvn_rows S mean cov (Suc n) g =
     (case mvn_rows S mean cov n (advance S g) of
        (rs, g') \<Rightarrow> (map (normal_component S g mean cov) [0..<length mean] # rs, g'))"

text \<open>
  \<open>np.random.multivariate_normal(mean, cov, size, check_valid)\<close>. ValueError when
  \<open>cov\<close> is not square, when \<open>mean\<close> and \<open>cov\<close> differ in length, when \<open>size\<close> is
  negative, and when \<open>mean\<close> is empty (the draws are reshaped to \<open>(-1, len(mean))\<close>, which
  NumPy rejects for a zero length). The result has shape \<open>(size, len(mean))\<close>.
\<close>

definition np_random_multivariate_normal ::
  "'g random_source \<Rightarrow> real list \<Rightarrow> matrix \<Rightarrow> int \<Rightarrow> check_valid \<Rightarrow> 'g \<Rightarrow> error + (matrix \<times> 'g)" where
  "np_random_multivariate_normal S mean cov sz check g =
     (if length (rows cov) \<noteq> ncols cov then Inl ValueError
      else if length mean \<noteq> length (rows cov) then Inl ValueError
      else if sz < 0 then Inl ValueError
      else if length mean = 0 then Inl ValueError
      else if check = Raise \<and> \<not> cov_valid S cov then Inl ValueError
      else (case mvn_rows S mean cov (nat sz) g of
              (rs, g') \<Rightarrow> Inr (\<lparr>ncols = length mean, rows = rs\<rparr>, g')))"

text \<open>
  \<open>np.random.binomial(n, p, size)\<close>: ValueError unless \<open>0 \<le> p \<le> 1\<close>; otherwise
  \<open>size\<close> draws, each the number of successes among \<open>n\<close> trials.
\<close>

fun count_successes :: "'g random_source \<Rightarrow> real \<Rightarrow> nat \<Rightarrow> 'g \<Rightarrow> int \<times> 'g" where
  "count_successes S p 0 g = (0, g)"
| "count_successes S p (Suc n) g =
     (case count_successes S p n (advance S g) of
        (c, g') \<Rightarrow> ((if bernoulli_trial S g p then 1 else 0) + c, g'))"

fun binomial_draws :: "'g random_source \<Rightarrow> nat \<Rightarrow> real \<Rightarrow> nat \<Rightarrow> 'g \<Rightarrow> int list \<times> 'g" where
  "binomial_draws S n p 0 g = ([], g)"
| "binomial_draws S n p (Suc k) g =
     (case count_successes S p n g of
        (c, g1) \<Rightarrow> (case binomial_draws S n p k g1 of (cs, g2) \<Rightarrow> (c # cs, g2)))"

definition np_random_binomial ::
  "'g random_source \<Rightarrow> nat \<Rightarrow> real \<Rightarrow> nat \<Rightarrow> 'g \<Rightarrow> error + (int list \<times> 'g)" where
  "np_random_binomial S n p sz g =
     (if p < 0 \<or> 1 < p then Inl ValueError else Inr (binomial_draws S n p sz g))"

section \<open>random\_data\<close>

text \<open>
  The list comprehension \<open>[np.random.binomial(1, p, size=1) for p in pscore]\<close>: one call
  for each score, in order, each on the state the call before left.
\<close>

fun binomial_each :: "'g random_source \<Rightarrow> real list \<Rightarrow> 'g \<Rightarrow> error + (int list list \<times> 'g)" where
  "binomial_each S [] g = Inr ([], g)"
| "binomial_each S (p # ps) g =
     then_do (np_random_binomial S 1 p 1 g) (\<lambda>(t, g1).
     then_do (binomial_each S ps g1) (\<lambda>(ts, g2).
     Inr (t # ts, g2)))"

text \<open>
  The function, line by line. A default of \<open>kwargs.get\<close> is evaluated before the lookup,
  as Python evaluates an argument, so a negative \<open>K\<close> raises whatever \<open>kwargs\<close> holds. The
  source passes no \<open>check_valid\<close>, so both draws run with NumPy's default \<open>Warn\<close>.
  \<open>np.array(...).flatten()\<close> of the list of one-element arrays is their concatenation.
\<close>

definition random_data ::
  "'g random_source \<Rightarrow> int \<Rightarrow> int \<Rightarrow> bool \<Rightarrow> kwargs \<Rightarrow> 'g \<Rightarrow> error + (result_tuple \<times> 'g)" where
  "random_data S N K unobservables kwargs g =
     then_do (np_zeros K) (\<lambda>zeros_K.
     then_do (kwargs_get_vector kwargs ''mu'' zeros_K) (\<lambda>mu.
     then_do (np_ones K) (\<lambda>ones_K.
     then_do (kwargs_get_vector kwargs ''beta'' ones_K) (\<lambda>beta.
     then_do (np_ones K) (\<lambda>ones_K'.
     then_do (kwargs_get_vector kwargs ''theta'' ones_K') (\<lambda>theta.
     then_do (kwargs_get_scalar kwargs ''delta'' 3) (\<lambda>delta.
     then_do (np_identity K) (\<lambda>identity_K.
     then_do (kwargs_get_matrix kwargs ''Sigma'' identity_K) (\<lambda>Sigma.
     then_do (np_identity 2) (\<lambda>identity_2.
     then_do (kwargs_get_matrix kwargs ''Gamma'' identity_2) (\<lambda>Gamma.
     then_do (np_random_multivariate_normal S mu Sigma N Warn g) (\<lambda>(X, g1).
     then_do (np_dot X beta) (\<lambda>Xbeta.
     let pscore = map logistic_cdf Xbeta in
     then_do (binomial_each S pscore g1) (\<lambda>(draws, g2).
     let T = concat draws in
     then_do (np_zeros 2) (\<lambda>zeros_2.
     then_do (np_random_multivariate_normal S zeros_2 Gamma N Warn g2) (\<lambda>(epsilon, g3).
     then_do (np_column epsilon 0) (\<lambda>epsilon_0.
     then_do (broadcast (+) Xbeta epsilon_0) (\<lambda>Y0.
     then_do (broadcast (+) beta theta) (\<lambda>beta_theta.
     then_do (np_dot X beta_theta) (\<lambda>X_beta_theta.
     then_do (np_column epsilon 1) (\<lambda>epsilon_1.
     then_do (broadcast (+) (map (\<lambda>x. delta + x) X_beta_theta) epsilon_1) (\<lambda>Y1.
     then_do (broadcast (*) (map (\<lambda>t. real_of_int (1 - t)) T) Y0) (\<lambda>untreated.
     then_do (broadcast (*) (map real_of_int T) Y1) (\<lambda>treated.
     then_do (broadcast (+) untreated treated) (\<lambda>Y.
     if unobservables
     then Inr (Tuple6 Y T X Y0 Y1 pscore, g3)
     else Inr (Tuple3 Y T X, g3))))))))))))))))))))))))))"

section \<open>is\_match\_parenthesis\<close>

text \<open>
  The source pushes the builtin \<open>str\<close> (not the token) for every open parenthesis, so the
  stack is a list of one fixed marker. \<open>match_loop\<close> is the \<open>for\<close> loop together with the
  test after it; the early \<open>return False\<close> is the branch that does not recurse.
\<close>

datatype marker = StrType

fun match_loop :: "string list \<Rightarrow> marker list \<Rightarrow> bool" where
  "match_loop [] stack = (if length stack \<noteq> 0 then False else True)"
| "match_loop (cur_str # rest) stack =
     (if cur_str = ''(''
      then match_loop rest (stack @ [StrType])
      else if cur_str = '')''
      then (if length stack = 0 then False else match_loop rest (butlast stack))
      else match_loop rest stack)"

definition is_match_parenthesis :: "string list \<Rightarrow> bool" where
  "is_match_parenthesis str_list = match_loop str_list []"

text \<open>
  The specification's reading of "balanced", in its own words: among the tokens
  \<open>"("\<close> and \<open>")"\<close>, no prefix closes more than it opens, and the whole list opens as
  many as it closes.
\<close>

definition balanced_tokens :: "string list \<Rightarrow> bool" where
  "balanced_tokens tokens \<longleftrightarrow>
     (\<forall>n \<in> {0..length tokens}.
        count_list (take n tokens) '')'' \<le> count_list (take n tokens) ''('')
     \<and> count_list tokens ''('' = count_list tokens '')''"

text \<open>The same with \<open>d\<close> parentheses already open: the invariant of the loop.\<close>

definition pending_ok :: "nat \<Rightarrow> string list \<Rightarrow> bool" where
  "pending_ok d tokens \<longleftrightarrow>
     (\<forall>n \<in> {0..length tokens}.
        count_list (take n tokens) '')'' \<le> d + count_list (take n tokens) ''('')
     \<and> d + count_list tokens ''('' = count_list tokens '')''"

section \<open>Vocabulary of the statements\<close>

text \<open>
  The parameters in force: what lines 43 to 48 of the source bind \<open>mu\<close>, \<open>beta\<close>,
  \<open>theta\<close>, \<open>delta\<close>, \<open>Sigma\<close> and \<open>Gamma\<close> to, each a supplied value or the default
  that \<open>K\<close> sizes. The predicate holds only when none of the six lines raises.
\<close>

definition params_in_force ::
  "int \<Rightarrow> kwargs \<Rightarrow> real list \<Rightarrow> real list \<Rightarrow> real list \<Rightarrow> real \<Rightarrow> matrix \<Rightarrow> matrix \<Rightarrow> bool" where
  "params_in_force K kwargs mu beta theta delta Sigma' Gamma' \<longleftrightarrow>
     then_do (np_zeros K) (kwargs_get_vector kwargs ''mu'') = Inr mu \<and>
     then_do (np_ones K) (kwargs_get_vector kwargs ''beta'') = Inr beta \<and>
     then_do (np_ones K) (kwargs_get_vector kwargs ''theta'') = Inr theta \<and>
     kwargs_get_scalar kwargs ''delta'' 3 = Inr delta \<and>
     then_do (np_identity K) (kwargs_get_matrix kwargs ''Sigma'') = Inr Sigma' \<and>
     then_do (np_identity 2) (kwargs_get_matrix kwargs ''Gamma'') = Inr Gamma'"

text \<open>
  The shapes that the calls of lines 50 to 58 accept: a square \<open>Sigma\<close> of the dimension of
  a non-empty \<open>mu\<close>, a \<open>beta\<close> as long as \<open>mu\<close>, a \<open>theta\<close> as long as \<open>mu\<close> or of length
  one (which \<open>beta + theta\<close> broadcasts), and a \<open>Gamma\<close> of shape 2 by 2. \<open>K\<close> does not occur.
\<close>

definition shapes_conform :: "real list \<Rightarrow> real list \<Rightarrow> real list \<Rightarrow> matrix \<Rightarrow> matrix \<Rightarrow> bool" where
  "shapes_conform mu beta theta Sigma' Gamma' \<longleftrightarrow>
     length mu \<noteq> 0 \<and>
     length (rows Sigma') = ncols Sigma' \<and> ncols Sigma' = length mu \<and>
     length beta = length mu \<and>
     (length theta = length mu \<or> length theta = 1) \<and>
     length (rows Gamma') = 2 \<and> ncols Gamma' = 2"

text \<open>
  Keyword arguments as the docstring and the spec document them: each of the six names is
  absent or holds a value of its documented shape for the given \<open>K\<close>.
\<close>

definition vector_kwarg_ok :: "kwargs \<Rightarrow> string \<Rightarrow> nat \<Rightarrow> bool" where
  "vector_kwarg_ok kwargs name n =
     (case kwargs name of None \<Rightarrow> True | Some (Vector v) \<Rightarrow> length v = n | Some _ \<Rightarrow> False)"

definition scalar_kwarg_ok :: "kwargs \<Rightarrow> string \<Rightarrow> bool" where
  "scalar_kwarg_ok kwargs name =
     (case kwargs name of None \<Rightarrow> True | Some (Scalar x) \<Rightarrow> True | Some _ \<Rightarrow> False)"

definition matrix_kwarg_ok :: "kwargs \<Rightarrow> string \<Rightarrow> nat \<Rightarrow> bool" where
  "matrix_kwarg_ok kwargs name n =
     (case kwargs name of
        None \<Rightarrow> True
      | Some (Matrix m) \<Rightarrow> ncols m = n \<and> length (rows m) = n
      | Some _ \<Rightarrow> False)"

definition documented_kwargs :: "int \<Rightarrow> kwargs \<Rightarrow> bool" where
  "documented_kwargs K kwargs \<longleftrightarrow>
     vector_kwarg_ok kwargs ''mu'' (nat K) \<and>
     vector_kwarg_ok kwargs ''beta'' (nat K) \<and>
     vector_kwarg_ok kwargs ''theta'' (nat K) \<and>
     scalar_kwarg_ok kwargs ''delta'' \<and>
     matrix_kwarg_ok kwargs ''Sigma'' (nat K) \<and>
     matrix_kwarg_ok kwargs ''Gamma'' 2"

text \<open>The six names that \<open>random_data\<close> looks up in \<open>kwargs\<close>.\<close>

definition recognised_names :: "string list" where
  "recognised_names = [''mu'', ''beta'', ''theta'', ''delta'', ''Sigma'', ''Gamma'']"

text \<open>Symmetry of a square matrix, the part of covariance validity that can be computed.\<close>

definition is_symmetric :: "matrix \<Rightarrow> bool" where
  "is_symmetric m \<longleftrightarrow>
     (\<forall>i \<in> {0..<ncols m}. \<forall>j \<in> {0..<ncols m}. rows m ! i ! j = rows m ! j ! i)"

text \<open>
  A concrete generator for running the function on explicit inputs. Its state is a counter;
  a normal draw in state \<open>g\<close> is the mean shifted by \<open>g\<close>, a trial succeeds in the even
  states, every draw adds one to the counter, and a covariance passes the validity test
  when it is symmetric.
\<close>

definition demo_source :: "int random_source" where
  "demo_source =
     \<lparr>normal_component = (\<lambda>g mean cov j. mean ! j + real_of_int g),
      bernoulli_trial = (\<lambda>g p. even g),
      advance = (\<lambda>g. g + 1),
      cov_valid = is_symmetric\<rparr>"

section \<open>Facts about the library operations\<close>

lemma then_do_Inl [simp]: "then_do (Inl e) f = Inl e"
  by (simp add: then_do_def)

lemma then_do_Inr [simp]: "then_do (Inr x) f = f x"
  by (simp add: then_do_def)

lemma then_do_eq_Inr: "then_do m f = Inr y \<longleftrightarrow> (\<exists>x. m = Inr x \<and> f x = Inr y)"
  by (cases m) simp_all

lemma then_do_eq_Inl:
  "then_do m f = Inl e \<longleftrightarrow> m = Inl e \<or> (\<exists>x. m = Inr x \<and> f x = Inl e)"
  by (cases m) simp_all

lemma logistic_cdf_pos: "0 < logistic_cdf x"
  by (simp add: logistic_cdf_def add_pos_pos)

lemma logistic_cdf_less_one: "logistic_cdf x < 1"
  by (simp add: logistic_cdf_def add_pos_pos)

lemma mvn_rows_length: "length (fst (mvn_rows S mean cov n g)) = n"
  by (induction n arbitrary: g) (simp_all add: case_prod_beta)

lemma mvn_rows_row_length:
  "r \<in> set (fst (mvn_rows S mean cov n g)) \<Longrightarrow> length r = length mean"
  by (induction n arbitrary: g) (auto simp: case_prod_beta)

lemma mvn_Inr_shape:
  assumes "np_random_multivariate_normal S mean cov sz check g = Inr (X, g')"
  shows "ncols X = length mean" and "length (rows X) = nat sz"
    and "\<forall>r \<in> set (rows X). length r = length mean"
    and "0 \<le> sz" and "length mean \<noteq> 0"
    and "length (rows cov) = ncols cov" and "length mean = ncols cov"
proof -
  from assms have c: "length (rows cov) = ncols cov" "length mean = length (rows cov)"
    "0 \<le> sz" "length mean \<noteq> 0"
    and X: "X = \<lparr>ncols = length mean, rows = fst (mvn_rows S mean cov (nat sz) g)\<rparr>"
    by (auto simp: np_random_multivariate_normal_def split: if_splits prod.splits)
  from X show "ncols X = length mean" by simp
  from X show "length (rows X) = nat sz" by (simp add: mvn_rows_length)
  from X show "\<forall>r \<in> set (rows X). length r = length mean"
    by (auto dest: mvn_rows_row_length)
  from c show "0 \<le> sz" "length mean \<noteq> 0" "length (rows cov) = ncols cov"
    "length mean = ncols cov" by simp_all
qed

lemma mvn_Inr_iff:
  "(\<exists>X g'. np_random_multivariate_normal S mean cov sz Warn g = Inr (X, g'))
     \<longleftrightarrow> length (rows cov) = ncols cov \<and> length mean = ncols cov \<and> 0 \<le> sz \<and> length mean \<noteq> 0"
  by (auto simp: np_random_multivariate_normal_def split: prod.splits)

lemma mvn_Inl:
  "np_random_multivariate_normal S mean cov sz check g = Inl e \<Longrightarrow> e = ValueError"
  by (auto simp: np_random_multivariate_normal_def split: if_splits prod.splits)

lemma count_successes_range:
  "0 \<le> fst (count_successes S p n g) \<and> fst (count_successes S p n g) \<le> int n"
proof (induction n arbitrary: g)
  case 0
  show ?case by simp
next
  case (Suc n)
  from Suc [of "advance S g"] show ?case by (simp add: case_prod_beta)
qed

lemma binomial_draws_length: "length (fst (binomial_draws S n p k g)) = k"
  by (induction k arbitrary: g) (simp_all add: case_prod_beta)

lemma binomial_draws_range:
  "c \<in> set (fst (binomial_draws S n p k g)) \<Longrightarrow> 0 \<le> c \<and> c \<le> int n"
proof (induction k arbitrary: g)
  case 0
  then show ?case by simp
next
  case (Suc k)
  then show ?case using count_successes_range [of S p n g]
    by (auto simp: case_prod_beta)
qed

lemma np_random_binomial_Inr:
  "0 \<le> p \<Longrightarrow> p \<le> 1 \<Longrightarrow> np_random_binomial S n p sz g = Inr (binomial_draws S n p sz g)"
  by (simp add: np_random_binomial_def)

lemma np_random_binomial_shape:
  assumes "np_random_binomial S n p sz g = Inr (t, g')"
  shows "length t = sz" and "\<forall>c \<in> set t. 0 \<le> c \<and> c \<le> int n"
proof -
  from assms have t: "t = fst (binomial_draws S n p sz g)"
    by (auto simp: np_random_binomial_def split: if_splits)
  show "length t = sz" by (simp add: t binomial_draws_length)
  show "\<forall>c \<in> set t. 0 \<le> c \<and> c \<le> int n"
    using binomial_draws_range [of _ S n p sz g] by (auto simp: t)
qed

lemma binomial_each_shape:
  "binomial_each S ps g = Inr (d, g') \<Longrightarrow>
     length d = length ps \<and> (\<forall>t \<in> set d. length t = 1 \<and> (\<forall>c \<in> set t. c = 0 \<or> c = 1))"
proof (induction ps arbitrary: g d g')
  case Nil
  then show ?case by simp
next
  case (Cons p ps)
  from Cons.prems obtain t g1 ts where
    t: "np_random_binomial S 1 p 1 g = Inr (t, g1)" and
    ts: "binomial_each S ps g1 = Inr (ts, g')" and d: "d = t # ts"
    by (auto simp: then_do_eq_Inr)
  from np_random_binomial_shape [OF t]
  have "length t = 1" and "\<forall>c \<in> set t. c = 0 \<or> c = 1" by auto
  with Cons.IH [OF ts] d show ?case by simp
qed

lemma binomial_each_Inr:
  "\<forall>p \<in> set ps. 0 \<le> p \<and> p \<le> 1 \<Longrightarrow> \<exists>d g'. binomial_each S ps g = Inr (d, g')"
proof (induction ps arbitrary: g)
  case Nil
  show ?case by simp
next
  case (Cons p ps)
  have p: "np_random_binomial S 1 p 1 g = Inr (binomial_draws S 1 p 1 g)"
    using Cons.prems by (simp add: np_random_binomial_Inr)
  obtain t g1 where tg: "binomial_draws S 1 p 1 g = (t, g1)" by (cases "binomial_draws S 1 p 1 g")
  from Cons.IH [of g1] Cons.prems obtain ts g2 where "binomial_each S ps g1 = Inr (ts, g2)"
    by auto
  with p tg show ?case by simp
qed

lemma concat_singletons_length:
  "\<forall>t \<in> set d. length t = 1 \<Longrightarrow> length (concat d) = length d"
  by (induction d) simp_all

lemma broadcast_same_length:
  "length xs = length ys \<Longrightarrow> broadcast f xs ys = Inr (map2 f xs ys)"
  by (simp add: broadcast_def)

lemma broadcast_Inl: "broadcast f xs ys = Inl e \<Longrightarrow> e = ValueError"
  by (auto simp: broadcast_def split: if_splits)

lemma np_dot_Inr: "ncols X = length v \<Longrightarrow> np_dot X v = Inr (map (\<lambda>r. sum_list (map2 (*) r v)) (rows X))"
  by (simp add: np_dot_def)

lemma np_dot_length: "np_dot X v = Inr w \<Longrightarrow> length w = length (rows X) \<and> ncols X = length v"
  by (auto simp: np_dot_def split: if_splits)

lemma np_dot_Inl: "np_dot X v = Inl e \<Longrightarrow> e = ValueError"
  by (auto simp: np_dot_def split: if_splits)

lemma np_random_binomial_Inl: "np_random_binomial S n p sz g = Inl e \<Longrightarrow> e = ValueError"
  by (auto simp: np_random_binomial_def split: if_splits)

lemma binomial_each_Inl: "binomial_each S ps g = Inl e \<Longrightarrow> e = ValueError"
proof (induction ps arbitrary: g)
  case Nil
  then show ?case by simp
next
  case (Cons p ps)
  then show ?case
    by (auto simp: then_do_eq_Inl dest: np_random_binomial_Inl)
qed

lemma np_column_mvn:
  assumes "np_random_multivariate_normal S mean cov sz check g = Inr (m, g')"
    and "j < length mean"
  shows "np_column m j \<noteq> Inl e"
  using mvn_Inr_shape(1) [OF assms(1)] assms(2) by (simp add: np_column_def)

section \<open>What random\_data computes\<close>

text \<open>A successful run, as the chain of the calls it made.\<close>

lemma random_data_Inr_iff:
  "random_data S N K u kw g = Inr (r, g') \<longleftrightarrow>
   (\<exists>zeros_K mu ones_K beta ones_K' theta delta identity_K Sigma identity_2 Gamma
      X g1 Xbeta draws g2 zeros_2 epsilon e0 Y0 bt Xbt e1 Y1 un tr Y.
      np_zeros K = Inr zeros_K \<and>
      kwargs_get_vector kw ''mu'' zeros_K = Inr mu \<and>
      np_ones K = Inr ones_K \<and>
      kwargs_get_vector kw ''beta'' ones_K = Inr beta \<and>
      np_ones K = Inr ones_K' \<and>
      kwargs_get_vector kw ''theta'' ones_K' = Inr theta \<and>
      kwargs_get_scalar kw ''delta'' 3 = Inr delta \<and>
      np_identity K = Inr identity_K \<and>
      kwargs_get_matrix kw ''Sigma'' identity_K = Inr Sigma \<and>
      np_identity 2 = Inr identity_2 \<and>
      kwargs_get_matrix kw ''Gamma'' identity_2 = Inr Gamma \<and>
      np_random_multivariate_normal S mu Sigma N Warn g = Inr (X, g1) \<and>
      np_dot X beta = Inr Xbeta \<and>
      binomial_each S (map logistic_cdf Xbeta) g1 = Inr (draws, g2) \<and>
      np_zeros 2 = Inr zeros_2 \<and>
      np_random_multivariate_normal S zeros_2 Gamma N Warn g2 = Inr (epsilon, g') \<and>
      np_column epsilon 0 = Inr e0 \<and>
      broadcast (+) Xbeta e0 = Inr Y0 \<and>
      broadcast (+) beta theta = Inr bt \<and>
      np_dot X bt = Inr Xbt \<and>
      np_column epsilon 1 = Inr e1 \<and>
      broadcast (+) (map (\<lambda>x. delta + x) Xbt) e1 = Inr Y1 \<and>
      broadcast (*) (map (\<lambda>t. real_of_int (1 - t)) (concat draws)) Y0 = Inr un \<and>
      broadcast (*) (map real_of_int (concat draws)) Y1 = Inr tr \<and>
      broadcast (+) un tr = Inr Y \<and>
      r = (if u then Tuple6 Y (concat draws) X Y0 Y1 (map logistic_cdf Xbeta)
           else Tuple3 Y (concat draws) X))"
  unfolding random_data_def
  apply (simp only: then_do_eq_Inr Let_def split_paired_Ex prod.case)
  apply (rule iffI)
   apply (elim exE conjE)
   apply (simp split: if_splits)
  apply (elim exE conjE)
  apply (simp split: if_splits)
  done

lemma random_data_Inr_params:
  assumes "random_data S N K u kw g = Inr (r, g')"
  shows "\<exists>mu beta theta delta Sigma' Gamma'.
           params_in_force K kw mu beta theta delta Sigma' Gamma' \<and> 0 \<le> N \<and>
           shapes_conform mu beta theta Sigma' Gamma'"
proof -
  from assms obtain zeros_K mu ones_K beta ones_K' theta delta identity_K Sigma' identity_2 Gamma'
      X g1 Xbeta draws g2 zeros_2 epsilon e0 Y0 bt Xbt e1 Y1 where
    p: "np_zeros K = Inr zeros_K" "kwargs_get_vector kw ''mu'' zeros_K = Inr mu"
      "np_ones K = Inr ones_K" "kwargs_get_vector kw ''beta'' ones_K = Inr beta"
      "np_ones K = Inr ones_K'" "kwargs_get_vector kw ''theta'' ones_K' = Inr theta"
      "kwargs_get_scalar kw ''delta'' 3 = Inr delta"
      "np_identity K = Inr identity_K" "kwargs_get_matrix kw ''Sigma'' identity_K = Inr Sigma'"
      "np_identity 2 = Inr identity_2" "kwargs_get_matrix kw ''Gamma'' identity_2 = Inr Gamma'"
    and X: "np_random_multivariate_normal S mu Sigma' N Warn g = Inr (X, g1)"
    and Xbeta: "np_dot X beta = Inr Xbeta"
    and z2: "np_zeros 2 = Inr zeros_2"
    and eps: "np_random_multivariate_normal S zeros_2 Gamma' N Warn g2 = Inr (epsilon, g')"
    and bt: "broadcast (+) beta theta = Inr bt"
    and Xbt: "np_dot X bt = Inr Xbt"
    unfolding random_data_Inr_iff by blast
  from p have pf: "params_in_force K kw mu beta theta delta Sigma' Gamma'"
    by (simp add: params_in_force_def then_do_eq_Inr)
  note sX = mvn_Inr_shape [OF X]
  note sE = mvn_Inr_shape [OF eps]
  from z2 have "length zeros_2 = 2" by (auto simp: np_zeros_def)
  with sE have G: "length (rows Gamma') = 2" "ncols Gamma' = 2" by simp_all
  from np_dot_length [OF Xbeta] sX have b: "length beta = length mu" by simp
  from np_dot_length [OF Xbt] sX have lbt: "length bt = length mu" by simp
  have th: "length theta = length mu \<or> length theta = 1"
    using bt lbt b by (auto simp: broadcast_def split: if_splits)
  from sX G b th have "shapes_conform mu beta theta Sigma' Gamma'"
    by (simp add: shapes_conform_def)
  with pf sX show ?thesis by blast
qed

text \<open>
  With conforming shapes and a non-negative \<open>N\<close> every call of the body succeeds; the
  arrays have \<open>N\<close> entries, and the same \<open>Y\<close>, \<open>T\<close> and \<open>X\<close> are returned for both values
  of \<open>unobservables\<close>.
\<close>

lemma mvn_Warn_Inr:
  assumes "length (rows cov) = ncols cov" "length mean = ncols cov" "0 \<le> sz" "length mean \<noteq> 0"
  shows "\<exists>X g'. np_random_multivariate_normal S mean cov sz Warn g = Inr (X, g')"
  using assms by (simp add: mvn_Inr_iff)

lemma broadcast_beta_theta:
  assumes "length theta = length beta \<or> length theta = 1"
  shows "\<exists>bt. broadcast (+) beta theta = Inr bt \<and> length (bt :: real list) = length beta"
  using assms by (auto simp: broadcast_def)

lemma random_data_conform:
  assumes pf: "params_in_force K kw mu beta theta delta Sigma' Gamma'"
    and N: "0 \<le> N"
    and sc: "shapes_conform mu beta theta Sigma' Gamma'"
  shows "\<exists>Y T X Y0 Y1 pscore g'.
      (\<forall>u. random_data S N K u kw g
             = Inr (if u then Tuple6 Y T X Y0 Y1 pscore else Tuple3 Y T X, g')) \<and>
      ncols X = length mu \<and> length (rows X) = nat N \<and>
      (\<forall>row \<in> set (rows X). length row = length mu) \<and>
      length T = nat N \<and> (\<forall>t \<in> set T. t = 0 \<or> t = 1) \<and>
      length pscore = nat N \<and> (\<forall>p \<in> set pscore. 0 < p \<and> p < 1) \<and>
      length Y0 = nat N \<and> length Y1 = nat N \<and>
      Y = map2 (+) (map2 (*) (map (\<lambda>t. real_of_int (1 - t)) T) Y0)
                   (map2 (*) (map real_of_int T) Y1)"
proof -
  from sc have c: "length mu \<noteq> 0" "length (rows Sigma') = ncols Sigma'"
    "ncols Sigma' = length mu" "length beta = length mu"
    "length theta = length mu \<or> length theta = 1"
    "length (rows Gamma') = 2" "ncols Gamma' = 2"
    by (simp_all add: shapes_conform_def)
  from pf obtain zeros_K where
    p1: "np_zeros K = Inr zeros_K" "kwargs_get_vector kw ''mu'' zeros_K = Inr mu"
    by (auto simp: params_in_force_def then_do_eq_Inr)
  from pf obtain ones_K where
    p2: "np_ones K = Inr ones_K" "kwargs_get_vector kw ''beta'' ones_K = Inr beta"
    by (auto simp: params_in_force_def then_do_eq_Inr)
  from pf obtain ones_K' where
    p3: "np_ones K = Inr ones_K'" "kwargs_get_vector kw ''theta'' ones_K' = Inr theta"
    by (auto simp: params_in_force_def then_do_eq_Inr)
  from pf have p4: "kwargs_get_scalar kw ''delta'' 3 = Inr delta"
    by (simp add: params_in_force_def)
  from pf obtain identity_K where
    p5: "np_identity K = Inr identity_K" "kwargs_get_matrix kw ''Sigma'' identity_K = Inr Sigma'"
    by (auto simp: params_in_force_def then_do_eq_Inr)
  from pf obtain identity_2 where
    p6: "np_identity 2 = Inr identity_2" "kwargs_get_matrix kw ''Gamma'' identity_2 = Inr Gamma'"
    by (auto simp: params_in_force_def then_do_eq_Inr)
  note p = p1 p2 p3 p4 p5 p6
  have "\<exists>X g1. np_random_multivariate_normal S mu Sigma' N Warn g = Inr (X, g1)"
  proof (rule mvn_Warn_Inr)
    show "length (rows Sigma') = ncols Sigma'" by (rule c(2))
    show "length mu = ncols Sigma'" by (rule c(3) [symmetric])
    show "0 \<le> N" by (rule N)
    show "length mu \<noteq> 0" by (rule c(1))
  qed
  then obtain X g1 where
    X: "np_random_multivariate_normal S mu Sigma' N Warn g = Inr (X, g1)" by blast
  note sX = mvn_Inr_shape [OF X]
  define Xbeta where "Xbeta = map (\<lambda>r. sum_list (map2 (*) r beta)) (rows X)"
  have Xbeta: "np_dot X beta = Inr Xbeta"
    using sX(1) c(4) by (simp add: np_dot_Inr Xbeta_def)
  have lXbeta: "length Xbeta = nat N" using sX(2) by (simp add: Xbeta_def)
  define pscore where "pscore = map logistic_cdf Xbeta"
  have ps: "\<forall>p \<in> set pscore. 0 < p \<and> p < 1"
    by (auto simp: pscore_def logistic_cdf_pos logistic_cdf_less_one)
  then have "\<forall>p \<in> set pscore. 0 \<le> p \<and> p \<le> 1" by (auto intro: less_imp_le)
  from binomial_each_Inr [OF this, of S g1] obtain draws g2 where
    d: "binomial_each S pscore g1 = Inr (draws, g2)" by blast
  note sd = binomial_each_shape [OF d]
  define T where "T = concat draws"
  have lT: "length T = nat N"
    using sd lXbeta by (simp add: T_def concat_singletons_length pscore_def)
  have T01: "\<forall>t \<in> set T. t = 0 \<or> t = 1" using sd by (auto simp: T_def)
  have z2: "np_zeros 2 = Inr [0, 0]" by (simp add: np_zeros_def numeral_2_eq_2)
  have "\<exists>E g3. np_random_multivariate_normal S [0, 0] Gamma' N Warn g2 = Inr (E, g3)"
  proof (rule mvn_Warn_Inr)
    show "length (rows Gamma') = ncols Gamma'" using c(6) c(7) by simp
    show "length [0, 0 :: real] = ncols Gamma'" using c(7) by simp
    show "0 \<le> N" by (rule N)
    show "length [0, 0 :: real] \<noteq> 0" by simp
  qed
  then obtain epsilon g3 where
    eps: "np_random_multivariate_normal S [0, 0] Gamma' N Warn g2 = Inr (epsilon, g3)" by blast
  note sE = mvn_Inr_shape [OF eps]
  define e0 where "e0 = map (\<lambda>r. r ! 0) (rows epsilon)"
  define e1 where "e1 = map (\<lambda>r. r ! 1) (rows epsilon)"
  have e0: "np_column epsilon 0 = Inr e0" using sE(1) by (simp add: np_column_def e0_def)
  have e1: "np_column epsilon 1 = Inr e1" using sE(1) by (simp add: np_column_def e1_def)
  have le: "length e0 = nat N" "length e1 = nat N" using sE(2) by (simp_all add: e0_def e1_def)
  define Y0 where "Y0 = map2 (+) Xbeta e0"
  have Y0: "broadcast (+) Xbeta e0 = Inr Y0"
    using lXbeta le by (simp add: broadcast_same_length Y0_def)
  have lY0: "length Y0 = nat N" using lXbeta le by (simp add: Y0_def)
  have "length theta = length beta \<or> length theta = 1" using c(4) c(5) by simp
  from broadcast_beta_theta [OF this] obtain bt where
    bt: "broadcast (+) beta theta = Inr bt" and lbt: "length bt = length beta" by blast
  define Xbt where "Xbt = map (\<lambda>r. sum_list (map2 (*) r bt)) (rows X)"
  have Xbt: "np_dot X bt = Inr Xbt" using sX(1) c(4) lbt by (simp add: np_dot_Inr Xbt_def)
  have lXbt: "length Xbt = nat N" using sX(2) by (simp add: Xbt_def)
  define Y1 where "Y1 = map2 (+) (map (\<lambda>x. delta + x) Xbt) e1"
  have Y1: "broadcast (+) (map (\<lambda>x. delta + x) Xbt) e1 = Inr Y1"
    using lXbt le by (simp add: broadcast_same_length Y1_def)
  have lY1: "length Y1 = nat N" using lXbt le by (simp add: Y1_def)
  define un where "un = map2 (*) (map (\<lambda>t. real_of_int (1 - t)) T) Y0"
  define tr where "tr = map2 (*) (map real_of_int T) Y1"
  define Y where "Y = map2 (+) un tr"
  have un: "broadcast (*) (map (\<lambda>t. real_of_int (1 - t)) T) Y0 = Inr un"
    using lT lY0 by (simp add: broadcast_same_length un_def)
  have tr: "broadcast (*) (map real_of_int T) Y1 = Inr tr"
    using lT lY1 by (simp add: broadcast_same_length tr_def)
  have Y: "broadcast (+) un tr = Inr Y"
    using lT lY0 lY1 by (simp add: broadcast_same_length un_def tr_def Y_def)
  have run: "random_data S N K u kw g
      = Inr (if u then Tuple6 Y T X Y0 Y1 pscore else Tuple3 Y T X, g3)" for u
    using p X Xbeta d z2 eps e0 Y0 bt Xbt e1 Y1 un tr Y
    unfolding pscore_def T_def by (simp add: random_data_def)
  have lps: "length pscore = nat N" using lXbeta by (simp add: pscore_def)
  have Yeq: "Y = map2 (+) (map2 (*) (map (\<lambda>t. real_of_int (1 - t)) T) Y0)
                   (map2 (*) (map real_of_int T) Y1)"
    by (simp add: Y_def un_def tr_def)
  from run sX(1) sX(2) sX(3) lT T01 lps ps lY0 lY1 Yeq show ?thesis by blast
qed

text \<open>
  Once the six parameters are bound, the only exception left is ValueError: the column
  slices of \<open>epsilon\<close> are always in range.
\<close>

lemma params_in_force_unique:
  assumes "params_in_force K kw mu beta theta delta Sigma' Gamma'"
    and "params_in_force K kw mu2 beta2 theta2 delta2 Sigma2 Gamma2"
  shows "mu2 = mu \<and> beta2 = beta \<and> theta2 = theta \<and> delta2 = delta
         \<and> Sigma2 = Sigma' \<and> Gamma2 = Gamma'"
  using assms by (simp add: params_in_force_def)

lemma random_data_Inl_ValueError:
  assumes pf: "params_in_force K kw mu beta theta delta Sigma' Gamma'"
    and fail: "random_data S N K u kw g = Inl e"
  shows "e = ValueError"
proof -
  from pf obtain zeros_K where
    p1: "np_zeros K = Inr zeros_K" "kwargs_get_vector kw ''mu'' zeros_K = Inr mu"
    by (auto simp: params_in_force_def then_do_eq_Inr)
  from pf obtain ones_K where
    p2: "np_ones K = Inr ones_K" "kwargs_get_vector kw ''beta'' ones_K = Inr beta"
    by (auto simp: params_in_force_def then_do_eq_Inr)
  from pf obtain ones_K' where
    p3': "np_ones K = Inr ones_K'" "kwargs_get_vector kw ''theta'' ones_K' = Inr theta"
    by (auto simp: params_in_force_def then_do_eq_Inr)
  from p2(1) p3'(1) have "ones_K' = ones_K" by simp
  with p3' have p3: "kwargs_get_vector kw ''theta'' ones_K = Inr theta" by simp
  from pf have p4: "kwargs_get_scalar kw ''delta'' 3 = Inr delta"
    by (simp add: params_in_force_def)
  from pf obtain identity_K where
    p5: "np_identity K = Inr identity_K" "kwargs_get_matrix kw ''Sigma'' identity_K = Inr Sigma'"
    by (auto simp: params_in_force_def then_do_eq_Inr)
  from pf obtain identity_2 where
    p6: "np_identity 2 = Inr identity_2" "kwargs_get_matrix kw ''Gamma'' identity_2 = Inr Gamma'"
    by (auto simp: params_in_force_def then_do_eq_Inr)
  have z2: "np_zeros 2 = Inr [0, 0]" by (simp add: np_zeros_def numeral_2_eq_2)
  have col: "np_column m j \<noteq> Inl e'"
    if "np_random_multivariate_normal S [0, 0] Gamma' N Warn g2 = Inr (m, g3)" "j < 2"
    for m g2 g3 j e'
    using np_column_mvn [OF that(1)] that(2) by simp
  from fail show ?thesis
    unfolding random_data_def
    by (auto simp: p1 p2 p3 p4 p5 p6 z2 then_do_eq_Inl Let_def col
          dest: mvn_Inl np_dot_Inl binomial_each_Inl broadcast_Inl split: if_splits)
qed

lemma documented_kwargs_params:
  assumes K: "1 \<le> K" and d: "documented_kwargs K kw"
  shows "\<exists>mu beta theta delta Sigma' Gamma'.
           params_in_force K kw mu beta theta delta Sigma' Gamma' \<and>
           shapes_conform mu beta theta Sigma' Gamma' \<and> length mu = nat K"
proof -
  from K have K0: "\<not> K < 0" and Kn: "nat K \<noteq> 0" by simp_all
  from d obtain mu where mu: "then_do (np_zeros K) (kwargs_get_vector kw ''mu'') = Inr mu"
    "length mu = nat K"
    using K0 by (auto simp: documented_kwargs_def vector_kwarg_ok_def np_zeros_def
        kwargs_get_vector_def split: option.splits ndarray.splits)
  from d obtain beta where beta: "then_do (np_ones K) (kwargs_get_vector kw ''beta'') = Inr beta"
    "length beta = nat K"
    using K0 by (auto simp: documented_kwargs_def vector_kwarg_ok_def np_ones_def
        kwargs_get_vector_def split: option.splits ndarray.splits)
  from d obtain theta where theta:
    "then_do (np_ones K) (kwargs_get_vector kw ''theta'') = Inr theta" "length theta = nat K"
    using K0 by (auto simp: documented_kwargs_def vector_kwarg_ok_def np_ones_def
        kwargs_get_vector_def split: option.splits ndarray.splits)
  from d obtain delta where delta: "kwargs_get_scalar kw ''delta'' 3 = Inr delta"
    by (auto simp: documented_kwargs_def scalar_kwarg_ok_def
        kwargs_get_scalar_def split: option.splits ndarray.splits)
  from d obtain Sigma' where Sigma:
    "then_do (np_identity K) (kwargs_get_matrix kw ''Sigma'') = Inr Sigma'"
    "ncols Sigma' = nat K" "length (rows Sigma') = nat K"
    using K0 by (auto simp: documented_kwargs_def matrix_kwarg_ok_def np_identity_def
        kwargs_get_matrix_def split: option.splits ndarray.splits)
  from d obtain Gamma' where Gamma:
    "then_do (np_identity 2) (kwargs_get_matrix kw ''Gamma'') = Inr Gamma'"
    "ncols Gamma' = 2" "length (rows Gamma') = 2"
    by (auto simp: documented_kwargs_def matrix_kwarg_ok_def np_identity_def
        kwargs_get_matrix_def split: option.splits ndarray.splits)
  have pf: "params_in_force K kw mu beta theta delta Sigma' Gamma'"
    using mu(1) beta(1) theta(1) delta Sigma(1) Gamma(1) by (simp add: params_in_force_def)
  have sc: "shapes_conform mu beta theta Sigma' Gamma'"
    using Kn mu(2) beta(2) theta(2) Sigma(2,3) Gamma(2,3) by (simp add: shapes_conform_def)
  from pf sc mu(2) show ?thesis by blast
qed

lemma documented_kwargs_empty: "documented_kwargs K Map.empty"
  by (simp add: documented_kwargs_def vector_kwarg_ok_def scalar_kwarg_ok_def matrix_kwarg_ok_def)

text \<open>
  The treatment vector of a successful run holds zeros and ones only, whatever the
  generator draws. The propensity scores of the model are exact reals strictly between 0
  and 1, as \<open>random_data_conform\<close> records; what float64 rounding makes of them at the
  ends of the range is outside the embedding.
\<close>

lemma random_data_treatment_binary:
  assumes run: "random_data S N K u kwargs g = Inr (r, g')"
  shows "\<forall>t \<in> set (out_T r). t = 0 \<or> t = 1"
proof -
  from random_data_Inr_params [OF run] obtain mu beta theta delta Sigma' Gamma' where
    pf: "params_in_force K kwargs mu beta theta delta Sigma' Gamma'" and N: "0 \<le> N" and
    sc: "shapes_conform mu beta theta Sigma' Gamma'" by blast
  from random_data_conform [OF pf N sc, of S g]
  obtain Y T X Y0 Y1 pscore ga where
    runa: "\<And>u. random_data S N K u kwargs g
             = Inr (if u then Tuple6 Y T X Y0 Y1 pscore else Tuple3 Y T X, ga)" and
    T: "\<forall>t \<in> set T. t = 0 \<or> t = 1"
    by blast
  from runa [of u] run have "out_T r = T" by (cases u) auto
  with T show ?thesis by simp
qed

section \<open>Concrete runs\<close>

text \<open>Rules for evaluating the model on explicit arguments with the simplifier.\<close>

lemma logistic_cdf_in_range [simp]: "\<not> logistic_cdf x < 0" "\<not> 1 < logistic_cdf x"
  using logistic_cdf_pos [of x] logistic_cdf_less_one [of x] by simp_all

lemma mvn_rows_numeral:
  "mvn_rows S mean cov (numeral k) g = mvn_rows S mean cov (Suc (pred_numeral k)) g"
  by (simp add: numeral_eq_Suc)

lemma np_zeros_2: "np_zeros 2 = Inr [0, 0]"
  by (simp add: np_zeros_def numeral_2_eq_2)

lemma np_identity_1: "np_identity 1 = Inr \<lparr>ncols = 1, rows = [[1]]\<rparr>"
  by (simp add: np_identity_def)

lemma np_identity_2: "np_identity 2 = Inr \<lparr>ncols = 2, rows = [[1, 0], [0, 1]]\<rparr>"
  by (simp add: np_identity_def upt_rec)

lemma np_identity_3:
  "np_identity 3 = Inr \<lparr>ncols = 3, rows = [[1, 0, 0], [0, 1, 0], [0, 0, 1]]\<rparr>"
  by (simp add: np_identity_def upt_rec)

lemmas eval_defs = random_data_def np_zeros_2 np_identity_2 np_identity_1 np_identity_3
  np_zeros_def np_ones_def kwargs_get_vector_def kwargs_get_scalar_def kwargs_get_matrix_def
  np_random_multivariate_normal_def np_random_binomial_def np_dot_def np_column_def
  broadcast_def demo_source_def mvn_rows_numeral numeral_2_eq_2 numeral_3_eq_3

text \<open>
  Two units, one covariate, every parameter at its default, the generator started at 0.
  The draws: \<open>X = [[0], [1]]\<close> (states 0 and 1), \<open>T = [1, 0]\<close> (states 2 and 3),
  \<open>epsilon = [[4, 4], [5, 5]]\<close> (states 4 and 5). Then \<open>Xbeta = [0, 1]\<close>,
  \<open>Y0 = [0 + 4, 1 + 5]\<close>, \<open>Y1 = [3 + 0 + 4, 3 + 2 + 5]\<close> and \<open>Y = [1 * 7, 1 * 6]\<close>.
\<close>

lemma demo_run:
  "random_data demo_source 2 1 True Map.empty 0
     = Inr (Tuple6 [7, 6] [1, 0] \<lparr>ncols = 1, rows = [[0], [1]]\<rparr> [4, 6] [7, 10]
              [logistic_cdf 0, logistic_cdf 1], 6)"
  by (simp add: eval_defs)


text \<open>The parameters in force for two calls used below.\<close>

lemma params_in_force_beta2:
  "params_in_force 3 [''beta'' \<mapsto> Vector [1, 1]] [0, 0, 0] [1, 1] [1, 1, 1] 3
     \<lparr>ncols = 3, rows = [[1, 0, 0], [0, 1, 0], [0, 0, 1]]\<rparr>
     \<lparr>ncols = 2, rows = [[1, 0], [0, 1]]\<rparr>"
  by (simp add: params_in_force_def np_identity_3 np_identity_2 np_zeros_def np_ones_def
      kwargs_get_vector_def kwargs_get_scalar_def kwargs_get_matrix_def numeral_3_eq_3)


section \<open>The claims about random\_data\<close>





text \<open>
  Claim C5. For every \<open>N \<ge> 0\<close> and \<open>K \<ge> 1\<close>, the call with no optional parameter
  succeeds and returns \<open>Y\<close> of length \<open>N\<close>, \<open>T\<close> of length \<open>N\<close> and \<open>X\<close> of shape
  \<open>N\<close> by \<open>K\<close>: \<open>N\<close> rows, each of length \<open>K\<close>, and \<open>K\<close> as the recorded column count.
\<close>

theorem random_data_default_shapes:
  assumes N: "0 \<le> N" and K: "1 \<le> K"
  shows "\<exists>r g'. random_data S N K unobservables Map.empty g = Inr (r, g') \<and>
           length (out_Y r) = nat N \<and> length (out_T r) = nat N \<and>
           length (rows (out_X r)) = nat N \<and> ncols (out_X r) = nat K \<and>
           (\<forall>row \<in> set (rows (out_X r)). length row = nat K)"
proof -
  from documented_kwargs_params [OF K documented_kwargs_empty]
  obtain mu beta theta delta Sigma' Gamma' where
    pf: "params_in_force K Map.empty mu beta theta delta Sigma' Gamma'" and
    sc: "shapes_conform mu beta theta Sigma' Gamma'" and lmu: "length mu = nat K" by blast
  from random_data_conform [OF pf N sc, of S g]
  obtain Y T X Y0 Y1 pscore g' where
    run: "\<And>u. random_data S N K u Map.empty g
             = Inr (if u then Tuple6 Y T X Y0 Y1 pscore else Tuple3 Y T X, g')" and
    sh: "ncols X = length mu" "length (rows X) = nat N"
      "\<forall>row \<in> set (rows X). length row = length mu" "length T = nat N" and
    Y: "length Y0 = nat N" "length Y1 = nat N"
      "Y = map2 (+) (map2 (*) (map (\<lambda>t. real_of_int (1 - t)) T) Y0)
                   (map2 (*) (map real_of_int T) Y1)"
    by blast
  have lY: "length Y = nat N" using Y sh(4) by simp
  show ?thesis
  proof (intro exI conjI)
    show "random_data S N K unobservables Map.empty g
        = Inr (if unobservables then Tuple6 Y T X Y0 Y1 pscore else Tuple3 Y T X, g')"
      by (rule run)
  qed (use lY sh lmu in auto)
qed

theorem random_data_default_shapes_witness:
  "(0::int) \<le> 2 \<and> (1::int) \<le> 1 \<and>
   (\<exists>r g'. random_data demo_source 2 1 True Map.empty 0 = Inr (r, g') \<and>
           length (out_Y r) = nat 2 \<and> length (out_T r) = nat 2 \<and>
           length (rows (out_X r)) = nat 2 \<and> ncols (out_X r) = nat 1 \<and>
           (\<forall>row \<in> set (rows (out_X r)). length row = nat 1))"
  using random_data_default_shapes [of 2 1 demo_source True 0] by simp

text \<open>
  Claim C6. With \<open>N = 0\<close>, \<open>K \<ge> 1\<close> and keyword arguments of the documented shapes, the
  call does not fail and every array of the returned tuple is empty; \<open>X\<close> is the array of
  shape \<open>(0, K)\<close>.
\<close>

theorem random_data_no_units:
  assumes K: "1 \<le> K" and d: "documented_kwargs K kwargs"
  shows "\<exists>g'. random_data S 0 K unobservables kwargs g
           = Inr (if unobservables
                  then Tuple6 [] [] \<lparr>ncols = nat K, rows = []\<rparr> [] [] []
                  else Tuple3 [] [] \<lparr>ncols = nat K, rows = []\<rparr>, g')"
proof -
  from documented_kwargs_params [OF K d]
  obtain mu beta theta delta Sigma' Gamma' where
    pf: "params_in_force K kwargs mu beta theta delta Sigma' Gamma'" and
    sc: "shapes_conform mu beta theta Sigma' Gamma'" and lmu: "length mu = nat K" by blast
  from random_data_conform [OF pf _ sc, of 0 S g]
  obtain Y T X Y0 Y1 pscore g' where
    run: "\<And>u. random_data S 0 K u kwargs g
             = Inr (if u then Tuple6 Y T X Y0 Y1 pscore else Tuple3 Y T X, g')" and
    sh: "ncols X = length mu" "length (rows X) = nat 0" "length T = nat 0"
      "length pscore = nat 0" "length Y0 = nat 0" "length Y1 = nat 0" and
    Y: "Y = map2 (+) (map2 (*) (map (\<lambda>t. real_of_int (1 - t)) T) Y0)
                   (map2 (*) (map real_of_int T) Y1)"
    by auto
  from sh have e: "T = []" "pscore = []" "Y0 = []" "Y1 = []" "rows X = []" by simp_all
  with Y have eY: "Y = []" by simp
  from e sh(1) lmu have X: "X = \<lparr>ncols = nat K, rows = []\<rparr>" by (cases X) simp
  from run [of unobservables] e eY X show ?thesis by auto
qed

theorem random_data_no_units_witness:
  "(1::int) \<le> 2 \<and> documented_kwargs 2 [''beta'' \<mapsto> Vector [1, 4]] \<and>
   (\<exists>g'. random_data demo_source 0 2 True [''beta'' \<mapsto> Vector [1, 4]] 0
           = Inr (Tuple6 [] [] \<lparr>ncols = nat 2, rows = []\<rparr> [] [] [], g'))"
proof -
  have d: "documented_kwargs 2 [''beta'' \<mapsto> Vector [1, 4]]"
    by (simp add: documented_kwargs_def vector_kwarg_ok_def scalar_kwarg_ok_def
        matrix_kwarg_ok_def)
  from random_data_no_units [of 2 "[''beta'' \<mapsto> Vector [1, 4]]" demo_source True 0] d
  show ?thesis by simp
qed

text \<open>
  Claim C7 says that a supplied \<open>beta\<close>, \<open>mu\<close> or \<open>theta\<close> whose length differs from \<open>K\<close>
  makes the call fail. The source uses \<open>K\<close> only to size the defaults, so two calls with
  \<open>K = 3\<close> return: one where \<open>mu\<close>, \<open>Sigma\<close>, \<open>beta\<close> and \<open>theta\<close> are all supplied in
  dimension 2, and one where \<open>theta\<close> has length 1, which \<open>beta + theta\<close> broadcasts.
\<close>

theorem shape_mismatch_counterexample:
  "length [1, 1 :: real] \<noteq> nat 3 \<and>
   random_data demo_source 1 3 False
     [''mu'' \<mapsto> Vector [0, 0], ''Sigma'' \<mapsto> Matrix \<lparr>ncols = 2, rows = [[1, 0], [0, 1]]\<rparr>,
      ''beta'' \<mapsto> Vector [1, 1], ''theta'' \<mapsto> Vector [1, 1]] 0
     = Inr (Tuple3 [2] [0] \<lparr>ncols = 2, rows = [[0, 0]]\<rparr>, 3) \<and>
   length [5 :: real] \<noteq> nat 3 \<and>
   random_data demo_source 1 3 False [''theta'' \<mapsto> Vector [5]] 0
     = Inr (Tuple3 [2] [0] \<lparr>ncols = 3, rows = [[0, 0, 0]]\<rparr>, 3)"
  by (simp add: eval_defs)

text \<open>
  Claim C7, amended. Once the six parameters are bound (supplied values of the documented
  kinds, or the defaults), the call raises ValueError and returns nothing whenever their
  shapes do not conform to one another: \<open>Sigma\<close> not square, \<open>mu\<close> empty or not of the
  dimension of \<open>Sigma\<close>, \<open>beta\<close> not as long as \<open>mu\<close>, \<open>theta\<close> neither as long as \<open>mu\<close>
  nor of length one, or \<open>Gamma\<close> not 2 by 2. \<open>K\<close> counts only through the defaults it
  sizes: a supplied \<open>beta\<close> of a length other than \<open>K\<close> raises when \<open>mu\<close> and \<open>Sigma\<close> are
  left at their defaults, as in the run that follows the theorem.
\<close>

theorem random_data_shape_mismatch:
  assumes pf: "params_in_force K kwargs mu beta theta delta Sigma' Gamma'"
    and bad: "\<not> shapes_conform mu beta theta Sigma' Gamma'"
  shows "random_data S N K unobservables kwargs g = Inl ValueError"
proof (cases "random_data S N K unobservables kwargs g")
  case (Inl e)
  with random_data_Inl_ValueError [OF pf Inl] show ?thesis by simp
next
  case (Inr rg)
  obtain r g' where "rg = (r, g')" by (cases rg)
  with Inr have "random_data S N K unobservables kwargs g = Inr (r, g')" by simp
  from random_data_Inr_params [OF this] obtain mu2 beta2 theta2 delta2 Sigma2 Gamma2 where
    pf2: "params_in_force K kwargs mu2 beta2 theta2 delta2 Sigma2 Gamma2" and
    ok: "0 \<le> N" "shapes_conform mu2 beta2 theta2 Sigma2 Gamma2" by blast
  from params_in_force_unique [OF pf pf2] ok bad show ?thesis by simp
qed

theorem random_data_shape_mismatch_witness:
  "params_in_force 3 [''beta'' \<mapsto> Vector [1, 1]] [0, 0, 0] [1, 1] [1, 1, 1] 3
     \<lparr>ncols = 3, rows = [[1, 0, 0], [0, 1, 0], [0, 0, 1]]\<rparr>
     \<lparr>ncols = 2, rows = [[1, 0], [0, 1]]\<rparr>
   \<and> \<not> shapes_conform [0, 0, 0] [1, 1] [1, 1, 1]
     \<lparr>ncols = 3, rows = [[1, 0, 0], [0, 1, 0], [0, 0, 1]]\<rparr>
     \<lparr>ncols = 2, rows = [[1, 0], [0, 1]]\<rparr>
   \<and> random_data demo_source 5 3 True [''beta'' \<mapsto> Vector [1, 1]] 0 = Inl ValueError"
proof -
  have s: "\<not> shapes_conform [0, 0, 0] [1, 1] [1, 1, 1]
     \<lparr>ncols = 3, rows = [[1, 0, 0], [0, 1, 0], [0, 0, 1]]\<rparr>
     \<lparr>ncols = 2, rows = [[1, 0], [0, 1]]\<rparr>"
    by (simp add: shapes_conform_def)
  from random_data_shape_mismatch [OF params_in_force_beta2 s, of demo_source 5 True 0]
    params_in_force_beta2 s
  show ?thesis by simp
qed






text \<open>
  Claim C10. \<open>random_data\<close> reads \<open>kwargs\<close> at the six names \<open>mu\<close>, \<open>beta\<close>, \<open>theta\<close>,
  \<open>delta\<close>, \<open>Sigma\<close> and \<open>Gamma\<close> only: two dictionaries that agree on these names give
  the same outcome. An entry under any other name, a misspelling included, raises nothing
  and changes nothing, so the parameter it was meant for keeps its default.
\<close>

theorem random_data_ignores_unknown_kwargs:
  assumes agree: "\<forall>name \<in> set recognised_names. kwargs1 name = kwargs2 name"
  shows "random_data S N K unobservables kwargs1 g = random_data S N K unobservables kwargs2 g"
proof -
  from agree have eqs: "kwargs1 ''mu'' = kwargs2 ''mu''" "kwargs1 ''beta'' = kwargs2 ''beta''"
    "kwargs1 ''theta'' = kwargs2 ''theta''" "kwargs1 ''delta'' = kwargs2 ''delta''"
    "kwargs1 ''Sigma'' = kwargs2 ''Sigma''" "kwargs1 ''Gamma'' = kwargs2 ''Gamma''"
    by (simp_all add: recognised_names_def)
  have v: "kwargs_get_vector kwargs1 ''mu'' = kwargs_get_vector kwargs2 ''mu''"
    "kwargs_get_vector kwargs1 ''beta'' = kwargs_get_vector kwargs2 ''beta''"
    "kwargs_get_vector kwargs1 ''theta'' = kwargs_get_vector kwargs2 ''theta''"
    by (simp_all add: fun_eq_iff kwargs_get_vector_def eqs)
  have s: "kwargs_get_scalar kwargs1 ''delta'' = kwargs_get_scalar kwargs2 ''delta''"
    by (simp add: fun_eq_iff kwargs_get_scalar_def eqs)
  have m: "kwargs_get_matrix kwargs1 ''Sigma'' = kwargs_get_matrix kwargs2 ''Sigma''"
    "kwargs_get_matrix kwargs1 ''Gamma'' = kwargs_get_matrix kwargs2 ''Gamma''"
    by (simp_all add: fun_eq_iff kwargs_get_matrix_def eqs)
  show ?thesis
    unfolding random_data_def v s m ..
qed

theorem random_data_ignores_unknown_kwargs_witness:
  "list_all (\<lambda>name. [''Beta'' \<mapsto> Vector [9, 9], ''sigma'' \<mapsto> Scalar 2] name = Map.empty name)
     recognised_names
   \<and> random_data demo_source 2 1 True [''Beta'' \<mapsto> Vector [9, 9], ''sigma'' \<mapsto> Scalar 2] 0
     = Inr (Tuple6 [7, 6] [1, 0] \<lparr>ncols = 1, rows = [[0], [1]]\<rparr> [4, 6] [7, 10]
              [logistic_cdf 0, logistic_cdf 1], 6)"
proof -
  have a: "\<forall>name \<in> set recognised_names.
      [''Beta'' \<mapsto> Vector [9, 9], ''sigma'' \<mapsto> Scalar 2] name = Map.empty name"
    by (simp add: recognised_names_def)
  have "random_data demo_source 2 1 True [''Beta'' \<mapsto> Vector [9, 9], ''sigma'' \<mapsto> Scalar 2] 0
     = Inr (Tuple6 [7, 6] [1, 0] \<lparr>ncols = 1, rows = [[0], [1]]\<rparr> [4, 6] [7, 10]
              [logistic_cdf 0, logistic_cdf 1], 6)"
    by (rule trans [OF random_data_ignores_unknown_kwargs [OF a] demo_run])
  moreover have "list_all
     (\<lambda>name. [''Beta'' \<mapsto> Vector [9, 9], ''sigma'' \<mapsto> Scalar 2] name = Map.empty name)
     recognised_names"
    by (simp add: recognised_names_def)
  ultimately show ?thesis by (rule conjI [rotated])
qed

section \<open>Verification of is\_match\_parenthesis\<close>

lemma ball_upto_Suc:
  "(\<forall>n \<in> {0..Suc m}. P n) \<longleftrightarrow> P 0 \<and> (\<forall>n \<in> {0..m}. P (Suc n))"
proof
  assume a: "\<forall>n \<in> {0..Suc m}. P n"
  show "P 0 \<and> (\<forall>n \<in> {0..m}. P (Suc n))" using a by auto
next
  assume b: "P 0 \<and> (\<forall>n \<in> {0..m}. P (Suc n))"
  show "\<forall>n \<in> {0..Suc m}. P n"
  proof
    fix n assume "n \<in> {0..Suc m}"
    then show "P n" using b by (cases n) auto
  qed
qed

lemma pending_ok_Nil: "pending_ok d [] \<longleftrightarrow> d = 0"
  by (simp add: pending_ok_def)

lemma pending_ok_open: "pending_ok d (''('' # ts) \<longleftrightarrow> pending_ok (Suc d) ts"
  by (simp add: pending_ok_def ball_upto_Suc)

lemma pending_ok_close: "pending_ok d ('')'' # ts) \<longleftrightarrow> 0 < d \<and> pending_ok (d - 1) ts"
proof (cases d)
  case 0
  have "\<not> pending_ok 0 ('')'' # ts)"
  proof
    assume "pending_ok 0 ('')'' # ts)"
    then have "\<forall>n \<in> {0..length ts}.
        Suc (count_list (take n ts) '')'') \<le> count_list (take n ts) ''(''"
      by (simp add: pending_ok_def ball_upto_Suc)
    then have "Suc (count_list (take 0 ts) '')'') \<le> count_list (take 0 ts) ''(''"
      by (rule bspec) simp
    then show False by simp
  qed
  with 0 show ?thesis by simp
next
  case (Suc k)
  then show ?thesis by (simp add: pending_ok_def ball_upto_Suc)
qed

lemma pending_ok_other:
  "t \<noteq> ''('' \<Longrightarrow> t \<noteq> '')'' \<Longrightarrow> pending_ok d (t # ts) \<longleftrightarrow> pending_ok d ts"
  by (simp add: pending_ok_def ball_upto_Suc)

lemma match_loop_pending: "match_loop ts stack \<longleftrightarrow> pending_ok (length stack) ts"
proof (induction ts arbitrary: stack)
  case Nil
  show ?case by (simp add: pending_ok_Nil)
next
  case (Cons t ts)
  show ?case
  proof (cases "t = ''(''")
    case True
    then show ?thesis using Cons.IH [of "stack @ [StrType]"] by (simp add: pending_ok_open)
  next
    case False
    note no = this
    show ?thesis
    proof (cases "t = '')''")
      case True
      then show ?thesis using Cons.IH [of "butlast stack"]
        by (simp add: pending_ok_close)
    next
      case False
      then show ?thesis using no Cons.IH [of stack] by (simp add: pending_ok_other)
    qed
  qed
qed

lemma is_match_balanced: "is_match_parenthesis ts \<longleftrightarrow> balanced_tokens ts"
  by (simp add: is_match_parenthesis_def match_loop_pending pending_ok_def balanced_tokens_def)

lemma match_loop_filter:
  "match_loop (filter (\<lambda>t. t = ''('' \<or> t = '')'') ts) stack = match_loop ts stack"
  by (induction ts arbitrary: stack) simp_all

lemma balanced_close_after:
  assumes "balanced_tokens pre"
  shows "\<not> balanced_tokens (pre @ '')'' # post)"
proof
  assume b: "balanced_tokens (pre @ '')'' # post)"
  have "Suc (length pre) \<in> {0..length (pre @ '')'' # post)}" by simp
  with b have "count_list (take (Suc (length pre)) (pre @ '')'' # post)) '')''
      \<le> count_list (take (Suc (length pre)) (pre @ '')'' # post)) ''(''"
    unfolding balanced_tokens_def by blast
  then have "Suc (count_list pre '')'') \<le> count_list pre ''(''"
    by simp
  moreover from assms have "count_list pre ''('' = count_list pre '')''"
    by (simp add: balanced_tokens_def)
  ultimately show False by simp
qed

text \<open>
  Claim C2. For every list of strings, \<open>is_match_parenthesis\<close> returns True exactly when
  the list is balanced in the specification's sense (no prefix has more \<open>")"\<close> than
  \<open>"("\<close>, and the whole list has as many of each). It returns True on the empty list; once
  a \<open>")"\<close> arrives while nothing is pending (the tokens before it are balanced), the result
  is False whatever follows; tokens other than the two parentheses do not change the result.
  The function is total: \<open>match_loop\<close> is a structural recursion over the list.
\<close>

theorem is_match_parenthesis_correct:
  "(is_match_parenthesis tokens \<longleftrightarrow> balanced_tokens tokens)
   \<and> is_match_parenthesis []
   \<and> (is_match_parenthesis before \<longrightarrow> \<not> is_match_parenthesis (before @ '')'' # after))
   \<and> is_match_parenthesis (filter (\<lambda>t. t = ''('' \<or> t = '')'') tokens)
       = is_match_parenthesis tokens"
proof -
  have a: "is_match_parenthesis tokens \<longleftrightarrow> balanced_tokens tokens"
    by (rule is_match_balanced)
  have b: "is_match_parenthesis []"
    by (simp add: is_match_parenthesis_def)
  have c: "is_match_parenthesis before \<longrightarrow> \<not> is_match_parenthesis (before @ '')'' # after)"
    by (simp add: is_match_balanced balanced_close_after)
  have d: "is_match_parenthesis (filter (\<lambda>t. t = ''('' \<or> t = '')'') tokens)
       = is_match_parenthesis tokens"
    by (simp add: is_match_parenthesis_def match_loop_filter)
  from a b c d show ?thesis by blast
qed

theorem is_match_parenthesis_correct_witness:
  "is_match_parenthesis [''('', ''x'', '')'']
   \<and> balanced_tokens [''('', ''x'', '')'']
   \<and> is_match_parenthesis [''('', '')'']
   \<and> \<not> is_match_parenthesis ([''('', '')''] @ '')'' # [''(''])
   \<and> is_match_parenthesis (filter (\<lambda>t. t = ''('' \<or> t = '')'') [''('', ''x'', '')''])"
proof -
  have m: "is_match_parenthesis [''('', ''x'', '')'']"
    by (simp add: is_match_parenthesis_def)
  have p: "is_match_parenthesis [''('', '')'']"
    by (simp add: is_match_parenthesis_def)
  note t = is_match_parenthesis_correct
    [of "[''('', ''x'', '')'']" "[''('', '')'']" "[''('']"]
  from t m have "balanced_tokens [''('', ''x'', '')'']" by blast
  moreover from t p have "\<not> is_match_parenthesis ([''('', '')''] @ '')'' # [''(''])" by blast
  moreover from t m
  have "is_match_parenthesis (filter (\<lambda>t. t = ''('' \<or> t = '')'') [''('', ''x'', '')''])"
    by blast
  ultimately show ?thesis using m p by blast
qed

end
